theory Spec2Isabelle
  imports Complex_Main "HOL-Library.Sublist" "HOL-Library.AList"
begin

section \<open>Python values used by the services\<close>

text \<open>
  A Python \<open>str\<close> is modelled as a \<open>string\<close>, one \<open>char\<close> per code point; the model
  therefore covers the code points 0 to 255. Exceptions are values: a computation that
  may raise returns \<open>py_exn + 'a\<close>, with \<open>Inl\<close> for the exception raised.
\<close>

datatype py_exn =
    IndexError
  | ValueError
  | PsycopgError string
  | HTTPException nat string
  | OtherException string

definition and_then :: "py_exn + 'a \<Rightarrow> ('a \<Rightarrow> py_exn + 'b) \<Rightarrow> py_exn + 'b" where
  "and_then m f = (case m of Inl e \<Rightarrow> Inl e | Inr x \<Rightarrow> f x)"

text \<open>\<open>xs[i]\<close> for a non-negative index: IndexError out of range.\<close>

definition index :: "'a list \<Rightarrow> nat \<Rightarrow> py_exn + 'a" where
  "index xs i = (if i < length xs then Inr (xs ! i) else Inl IndexError)"

subsection \<open>Strings\<close>

text \<open>\<open>sub in s\<close>: some position of \<open>s\<close> starts an occurrence of \<open>sub\<close>.\<close>

fun str_in :: "string \<Rightarrow> string \<Rightarrow> bool" where
  "str_in sub [] = (sub = [])"
| "str_in sub (c # cs) = (prefix sub (c # cs) \<or> str_in sub cs)"

text \<open>
  The leftmost occurrence of \<open>sep\<close> in \<open>s\<close>: the text before it and the text after it.
\<close>

fun find_first :: "string \<Rightarrow> string \<Rightarrow> (string \<times> string) option" where
  "find_first sep [] = (if sep = [] then Some ([], []) else None)"
| "find_first sep (c # cs) =
     (if prefix sep (c # cs) then Some ([], drop (length sep) (c # cs))
      else map_option (\<lambda>(a, b). (c # a, b)) (find_first sep cs))"

text \<open>
  \<open>s.split(sep, 1)\<close>: at most one split, at the leftmost occurrence of \<open>sep\<close>; the whole
  string alone when \<open>sep\<close> does not occur; ValueError for the empty separator.
\<close>

definition split1 :: "string \<Rightarrow> string \<Rightarrow> py_exn + string list" where
  "split1 sep s =
     (if sep = [] then Inl ValueError
      else case find_first sep s of
             None \<Rightarrow> Inr [s]
           | Some (a, b) \<Rightarrow> Inr [a, b])"

text \<open>
  \<open>str.isspace\<close> on the code points below 256: tab, line feed, vertical tab, form feed,
  carriage return, the separators 0x1C to 0x1F, space, next line (0x85) and no-break
  space (0xA0).
\<close>

definition is_space :: "char \<Rightarrow> bool" where
  "is_space c \<longleftrightarrow> c \<in> set [CHR 0x09, CHR 0x0A, CHR 0x0B, CHR 0x0C, CHR 0x0D,
     CHR 0x1C, CHR 0x1D, CHR 0x1E, CHR 0x1F, CHR 0x20, CHR 0x85, CHR 0xA0]"

definition lstrip :: "string \<Rightarrow> string" where
  "lstrip s = dropWhile is_space s"

definition rstrip :: "string \<Rightarrow> string" where
  "rstrip s = rev (dropWhile is_space (rev s))"

text \<open>\<open>s.strip()\<close>: leading and trailing whitespace removed.\<close>

definition strip :: "string \<Rightarrow> string" where
  "strip s = rstrip (lstrip s)"

subsection \<open>Floats\<close>

text \<open>
  A Python \<open>float\<close> is an IEEE 754 binary64 value: a finite value (carried here as the
  rational number it denotes; the two zeros are not told apart), an infinity with its
  sign (\<open>True\<close> for the negative one), or a NaN.
\<close>

datatype pyfloat = Finite rat | Infinity bool | NaN

text \<open>
  Round to nearest, ties to even, of the positive rational \<open>n / d\<close> to a multiple of
  \<open>2 ^ e\<close> (\<open>e\<close> may be negative): the multiplier.
\<close>

definition round_half_even :: "int \<Rightarrow> int \<Rightarrow> int" where
  "round_half_even n d =
     (let q = n div d; r = n mod d
      in if 2 * r < d then q else if d < 2 * r then q + 1
         else if even q then q else q + 1)"

definition scaled_round :: "int \<Rightarrow> int \<Rightarrow> int \<Rightarrow> int" where
  "scaled_round n d e =
     (if 0 \<le> e then round_half_even n (d * 2 ^ nat e)
      else round_half_even (n * 2 ^ nat (- e)) d)"

text \<open>The number of binary digits of a positive integer.\<close>

function bit_length :: "int \<Rightarrow> int" where
  "bit_length n = (if n \<le> 0 then 0 else 1 + bit_length (n div 2))"
  by pat_completeness auto
termination
  by (relation "measure nat") auto

declare bit_length.simps [simp del]

text \<open>\<open>\<lfloor>log\<^sub>2 (n / d)\<rfloor>\<close> for positive \<open>n\<close> and \<open>d\<close>.\<close>

definition floor_log2 :: "int \<Rightarrow> int \<Rightarrow> int" where
  "floor_log2 n d =
     (let k = bit_length n - bit_length d
      in if (if 0 \<le> k then d * 2 ^ nat k \<le> n else d \<le> n * 2 ^ nat (- k))
         then k else k - 1)"

definition pow2 :: "int \<Rightarrow> rat" where
  "pow2 e = (if 0 \<le> e then 2 ^ nat e else 1 / 2 ^ nat (- e))"

text \<open>
  The binary64 value nearest to the rational \<open>n / d\<close> (\<open>d\<close> positive): 53 significant
  bits, the least exponent -1022 (below it the spacing stays \<open>2\<^sup>-\<^sup>1\<^sup>0\<^sup>7\<^sup>4\<close>), and an
  infinity once the rounded value reaches \<open>2\<^sup>1\<^sup>0\<^sup>2\<^sup>4\<close>.
\<close>

definition binary64 :: "int \<Rightarrow> int \<Rightarrow> pyfloat" where
  "binary64 n d =
     (if n = 0 then Finite 0
      else let a = \<bar>n\<bar>;
               e = max (floor_log2 a d) (- 1022) - 52;
               m = scaled_round a d e
           in if 2 ^ 1024 \<le> of_int m * pow2 e then Infinity (n < 0)
              else Finite ((if n < 0 then - 1 else 1) * of_int m * pow2 e))"

definition is_digit :: "char \<Rightarrow> bool" where
  "is_digit c \<longleftrightarrow> c \<in> set ''0123456789''"

definition digit_value :: "char \<Rightarrow> int" where
  "digit_value c = of_char c - 48"

text \<open>
  \<open>digitpart ::= digit (["_"] digit)*\<close>: decimal digits, single underscores allowed
  between two digits only.
\<close>

fun digitpart :: "string \<Rightarrow> bool" where
  "digitpart [] = False"
| "digitpart [c] = is_digit c"
| "digitpart (c # d # cs) =
     (is_digit c \<and> (if d = CHR ''_'' then digitpart cs else digitpart (d # cs)))"

definition digits_of :: "string \<Rightarrow> int list" where
  "digits_of s = map digit_value (filter is_digit s)"

definition decimal :: "int list \<Rightarrow> int" where
  "decimal ds = foldl (\<lambda>a d. 10 * a + d) 0 ds"

definition ascii_lower :: "char \<Rightarrow> char" where
  "ascii_lower c =
     (if c \<in> set ''ABCDEFGHIJKLMNOPQRSTUVWXYZ'' then char_of (of_char c + (32::nat)) else c)"

text \<open>An optional sign: whether it is a minus, and the rest.\<close>

fun take_sign :: "string \<Rightarrow> bool \<times> string" where
  "take_sign [] = (False, [])"
| "take_sign (c # cs) =
     (if c = CHR ''-'' then (True, cs) else if c = CHR ''+'' then (False, cs)
      else (False, c # cs))"

text \<open>
  \<open>number ::= [digitpart] "." digitpart | digitpart ["."]\<close>: the digits before and after
  the point, when the text is a number.
\<close>

definition number :: "string \<Rightarrow> (int list \<times> int list) option" where
  "number s =
     (let ip = takeWhile (\<lambda>c. c \<noteq> CHR ''.'') s; r = dropWhile (\<lambda>c. c \<noteq> CHR ''.'') s
      in if r = [] then (if digitpart ip then Some (digits_of ip, []) else None)
         else let fp = tl r
              in if fp = [] then (if digitpart ip then Some (digits_of ip, []) else None)
                 else if (ip = [] \<or> digitpart ip) \<and> digitpart fp
                      then Some (digits_of ip, digits_of fp)
                 else None)"

text \<open>\<open>exponent ::= ("e" | "E") [sign] digitpart\<close>, after the letter.\<close>

definition exponent :: "string \<Rightarrow> int option" where
  "exponent s =
     (let (neg, ds) = take_sign s
      in if digitpart ds
         then Some ((if neg then - 1 else 1) * decimal (digits_of ds))
         else None)"

text \<open>
  The binary64 value of the decimal number with the sign \<open>neg\<close>, the digits \<open>m\<close> and
  the decimal exponent \<open>sh\<close>.
\<close>

definition decimal_value :: "bool \<Rightarrow> int \<Rightarrow> int \<Rightarrow> pyfloat" where
  "decimal_value neg m sh =
     (let sg = (if neg then - 1 else 1)
      in if 0 \<le> sh then binary64 (sg * m * 10 ^ nat sh) 1
         else binary64 (sg * m) (10 ^ nat (- sh)))"

definition not_e :: "char \<Rightarrow> bool" where
  "not_e c \<longleftrightarrow> c \<noteq> CHR ''e'' \<and> c \<noteq> CHR ''E''"

text \<open>\<open>floatnumber ::= number [exponent]\<close>, with the sign read before it.\<close>

definition floatnumber :: "bool \<Rightarrow> string \<Rightarrow> pyfloat option" where
  "floatnumber neg body =
     (let mant = takeWhile not_e body; rest = dropWhile not_e body
      in case number mant of
           None \<Rightarrow> None
         | Some (ip, fp) \<Rightarrow>
             (case (if rest = [] then Some 0 else exponent (tl rest)) of
                None \<Rightarrow> None
              | Some ex \<Rightarrow> Some (decimal_value neg (decimal (ip @ fp)) (ex - int (length fp)))))"

text \<open>
  \<open>float(s)\<close> on a string without surrounding whitespace (the caller strips it, and
  \<open>float\<close> would strip no more than that):
  \<open>floatvalue ::= [sign] (floatnumber | "inf" | "infinity" | "nan")\<close>, letters in either
  case. The result is the binary64 value nearest to the decimal number written; \<open>None\<close>
  stands for ValueError.
\<close>

definition py_float :: "string \<Rightarrow> pyfloat option" where
  "py_float s =
     (let (neg, body) = take_sign s; low = map ascii_lower body
      in if low = ''inf'' \<or> low = ''infinity'' then Some (Infinity neg)
         else if low = ''nan'' then Some NaN
         else floatnumber neg body)"

section \<open>The response parser (llm\_processor.py)\<close>

type_synonym translation = "string \<times> string option \<times> pyfloat"

text \<open>
  \<open>parse_llm_response\<close>: each of the three steps splits the response it was given.
\<close>

definition extract_sql :: "string \<Rightarrow> py_exn + string option" where
  "extract_sql response =
     (if str_in ''SQL:'' response then
        and_then (split1 ''SQL:'' response) (\<lambda>parts.
        and_then (index parts 1) (\<lambda>after.
        and_then (split1 ''EXPLANATION:'' after) (\<lambda>sql_parts.
        and_then (index sql_parts 0) (\<lambda>part. Inr (Some (strip part))))))
      else Inr None)"

definition extract_explanation :: "string \<Rightarrow> py_exn + string option" where
  "extract_explanation response =
     (if str_in ''EXPLANATION:'' response then
        and_then (split1 ''EXPLANATION:'' response) (\<lambda>parts.
        and_then (index parts 1) (\<lambda>after.
        and_then (split1 ''CONFIDENCE:'' after) (\<lambda>explanation_parts.
        and_then (index explanation_parts 0) (\<lambda>part. Inr (Some (strip part))))))
      else Inr None)"

definition extract_confidence :: "string \<Rightarrow> py_exn + pyfloat" where
  "extract_confidence response =
     (if str_in ''CONFIDENCE:'' response then
        and_then (split1 ''CONFIDENCE:'' response) (\<lambda>parts.
        and_then (index parts 1) (\<lambda>after.
          let confidence_str = strip after
          in case py_float confidence_str of
               Some v \<Rightarrow> Inr v
             | None \<Rightarrow> Inr (Finite (1 / 2))))
      else Inr (Finite 0))"

definition parse_llm_response :: "string \<Rightarrow> py_exn + translation" where
  "parse_llm_response response =
     and_then (extract_sql response) (\<lambda>sql.
     and_then (extract_explanation response) (\<lambda>explanation.
     and_then (extract_confidence response) (\<lambda>confidence.
       Inr (if sql = None \<or> sql = Some [] then ''SELECT * FROM cars LIMIT 10;'' else the sql,
            explanation, confidence))))"

subsection \<open>Views of a response used in the statements\<close>

text \<open>
  The text after the leftmost occurrence of a marker (empty when it does not occur) and
  the text before it (everything when it does not occur).
\<close>

definition text_after :: "string \<Rightarrow> string \<Rightarrow> string" where
  "text_after m s = (case find_first m s of Some (a, b) \<Rightarrow> b | None \<Rightarrow> [])"

definition text_before :: "string \<Rightarrow> string \<Rightarrow> string" where
  "text_before m s = (case find_first m s of Some (a, b) \<Rightarrow> a | None \<Rightarrow> s)"

text \<open>The closed interval from 0 to 1; an infinity or a NaN is outside it.\<close>

fun in_unit :: "pyfloat \<Rightarrow> bool" where
  "in_unit (Finite q) = (0 \<le> q \<and> q \<le> 1)"
| "in_unit (Infinity neg) = False"
| "in_unit NaN = False"

subsection \<open>The parsing algorithm as the specification words it\<close>

text \<open>
  The specification (section 4.4) describes three steps, each working on the remainder
  of the text left by the step before it. A step that finds its marker consumes the text
  up to the end of the field it extracted: up to the next marker of the following field,
  or up to the end of the text. Each step returns its value and the remainder.
\<close>

definition sql_step :: "string \<Rightarrow> string option \<times> string" where
  "sql_step txt =
     (case find_first ''SQL:'' txt of
        None \<Rightarrow> (None, txt)
      | Some (skipped, after) \<Rightarrow>
          (case find_first ''EXPLANATION:'' after of
             None \<Rightarrow> (Some (strip after), [])
           | Some (candidate, rest) \<Rightarrow> (Some (strip candidate), ''EXPLANATION:'' @ rest)))"

definition explanation_step :: "string \<Rightarrow> string option \<times> string" where
  "explanation_step txt =
     (case find_first ''EXPLANATION:'' txt of
        None \<Rightarrow> (None, txt)
      | Some (skipped, after) \<Rightarrow>
          (case find_first ''CONFIDENCE:'' after of
             None \<Rightarrow> (Some (strip after), [])
           | Some (candidate, rest) \<Rightarrow> (Some (strip candidate), ''CONFIDENCE:'' @ rest)))"

definition confidence_step :: "string \<Rightarrow> pyfloat" where
  "confidence_step txt =
     (case find_first ''CONFIDENCE:'' txt of
        None \<Rightarrow> Finite 0
      | Some (skipped, after) \<Rightarrow>
          (case py_float (strip after) of Some v \<Rightarrow> v | None \<Rightarrow> Finite (1 / 2)))"

definition parse_by_remainders :: "string \<Rightarrow> translation" where
  "parse_by_remainders txt =
     (let (sql, rest1) = sql_step txt;
          (explanation, rest2) = explanation_step rest1;
          confidence = confidence_step rest2
      in (if sql = None \<or> sql = Some [] then ''SELECT * FROM cars LIMIT 10;'' else the sql,
          explanation, confidence))"

text \<open>
  The markers of a response are in the fixed order when no \<open>EXPLANATION:\<close> stands
  before the first \<open>SQL:\<close>, no \<open>CONFIDENCE:\<close> stands before the first \<open>EXPLANATION:\<close>,
  and a response with \<open>SQL:\<close> but without \<open>EXPLANATION:\<close> has no \<open>CONFIDENCE:\<close>.
\<close>

definition markers_in_order :: "string \<Rightarrow> bool" where
  "markers_in_order r \<longleftrightarrow>
     (str_in ''SQL:'' r \<longrightarrow> \<not> str_in ''EXPLANATION:'' (text_before ''SQL:'' r)) \<and>
     (str_in ''EXPLANATION:'' r \<longrightarrow> \<not> str_in ''CONFIDENCE:'' (text_before ''EXPLANATION:'' r)) \<and>
     (str_in ''SQL:'' r \<and> \<not> str_in ''EXPLANATION:'' r \<longrightarrow> \<not> str_in ''CONFIDENCE:'' r)"

section \<open>The prompt builder (llm\_processor.py)\<close>

text \<open>
  A schema is a dictionary from table names to table descriptions, in insertion order;
  a table description is a dictionary whose key \<open>columns\<close>, when present, holds the
  column descriptions.
\<close>

record column =
  col_name :: string
  col_type :: string
  col_nullable :: bool

record table_info =
  columns :: "column list option"

type_synonym db_schema = "(string \<times> table_info) list"

text \<open>\<open>sep.join(parts)\<close>.\<close>

fun join :: "string \<Rightarrow> string list \<Rightarrow> string" where
  "join sep [] = []"
| "join sep [x] = x"
| "join sep (x # y # ys) = x @ sep @ join sep (y # ys)"

definition format_schema_for_prompt :: "db_schema option \<Rightarrow> string" where
  "format_schema_for_prompt db_schema =
     (if db_schema = None \<or> db_schema = Some [] then ''No schema available.''
      else join ''\<newline>''
        (map (\<lambda>(table_name, table_info).
           let cols = (case columns table_info of None \<Rightarrow> [] | Some cs \<Rightarrow> cs);
               columns_str = join '', '' (map (\<lambda>col. col_name col @ '' '' @ col_type col) cols)
           in ''Table: '' @ table_name @ '' ('' @ columns_str @ '')'')
         (the db_schema)))"

definition prompt_head :: string where
  "prompt_head = ''\<newline>Given the following PostgreSQL database schema:\<newline>\<newline>''"

definition prompt_middle :: string where
  "prompt_middle =
     ''\<newline>\<newline>Translate this natural language question into a valid SQL query:\<newline>''
     @ [CHR 0x22]"

definition prompt_tail :: string where
  "prompt_tail = [CHR 0x22]
     @ ''\<newline>\<newline>Return the answer in the following format:\<newline>''
     @ ''SQL: <the SQL query>\<newline>''
     @ ''EXPLANATION: <brief explanation of how the query works>\<newline>''
     @ ''CONFIDENCE: <a number from 0 to 1 indicating confidence>\<newline>\<newline>''
     @ ''Make sure the SQL is valid PostgreSQL syntax, contains no syntax errors, ''
     @ ''and would run correctly against the described database.\<newline>''"

definition generate_prompt :: "string \<Rightarrow> db_schema option \<Rightarrow> string" where
  "generate_prompt query db_schema =
     (let schema_str = format_schema_for_prompt db_schema
      in prompt_head @ schema_str @ prompt_middle @ query @ prompt_tail)"

section \<open>The schema provider (db\_schema.py)\<close>

definition get_hardcoded_schema :: db_schema where
  "get_hardcoded_schema =
     [(''cars'', \<lparr>columns = Some
        [\<lparr>col_name = ''id'', col_type = ''integer'', col_nullable = False\<rparr>,
         \<lparr>col_name = ''model'', col_type = ''varchar(50)'', col_nullable = False\<rparr>,
         \<lparr>col_name = ''mpg'', col_type = ''numeric(5,1)'', col_nullable = True\<rparr>,
         \<lparr>col_name = ''cyl'', col_type = ''integer'', col_nullable = True\<rparr>,
         \<lparr>col_name = ''disp'', col_type = ''numeric(6,1)'', col_nullable = True\<rparr>,
         \<lparr>col_name = ''hp'', col_type = ''integer'', col_nullable = True\<rparr>,
         \<lparr>col_name = ''drat'', col_type = ''numeric(4,2)'', col_nullable = True\<rparr>,
         \<lparr>col_name = ''wt'', col_type = ''numeric(5,3)'', col_nullable = True\<rparr>,
         \<lparr>col_name = ''qsec'', col_type = ''numeric(5,2)'', col_nullable = True\<rparr>,
         \<lparr>col_name = ''vs'', col_type = ''integer'', col_nullable = True\<rparr>,
         \<lparr>col_name = ''am'', col_type = ''integer'', col_nullable = True\<rparr>,
         \<lparr>col_name = ''gear'', col_type = ''integer'', col_nullable = True\<rparr>,
         \<lparr>col_name = ''carb'', col_type = ''integer'', col_nullable = True\<rparr>]\<rparr>)]"

text \<open>
  What the process environment and the database driver answer during one call: the
  value of \<open>DATABASE_URL\<close>, and for each driver call the exception it raises, if any.
  \<open>sp_fetch q\<close> stands for \<open>cursor.execute(q)\<close> followed by \<open>cursor.fetchall()\<close>: the rows,
  each a tuple of values, or the exception one of the two raised.
\<close>

record schema_env =
  sp_database_url :: "string option"
  sp_connect :: "string \<Rightarrow> py_exn option"
  sp_cursor :: "py_exn option"
  sp_fetch :: "string \<Rightarrow> py_exn + string list list"
  sp_close :: "py_exn option"

text \<open>What happened to the connection of the call, in order.\<close>

datatype conn_event = Connected | Closed

definition tables_query :: string where
  "tables_query =
     ''\<newline>            SELECT tablename FROM pg_catalog.pg_tables\<newline>''
     @ ''            WHERE schemaname = '' @ [CHR 0x27] @ ''public'' @ [CHR 0x27]
     @ '';\<newline>        ''"

definition columns_query :: "string \<Rightarrow> string" where
  "columns_query table_name =
     ''\<newline>                SELECT column_name, data_type, is_nullable\<newline>''
     @ ''                FROM information_schema.columns\<newline>''
     @ ''                WHERE table_name = '' @ [CHR 0x27] @ table_name @ [CHR 0x27]
     @ '';\<newline>            ''"

text \<open>Unpacking a row into one or into three names: ValueError on any other length.\<close>

fun unpack1 :: "string list \<Rightarrow> py_exn + string" where
  "unpack1 [a] = Inr a"
| "unpack1 row = Inl ValueError"

fun unpack3 :: "string list \<Rightarrow> py_exn + string \<times> string \<times> string" where
  "unpack3 [a, b, c] = Inr (a, b, c)"
| "unpack3 row = Inl ValueError"

text \<open>The inner loop: the column descriptions of one table, from its catalog rows.\<close>

fun read_columns :: "string list list \<Rightarrow> column list \<Rightarrow> py_exn + column list" where
  "read_columns [] cols = Inr cols"
| "read_columns (row # rows) cols =
     and_then (unpack3 row) (\<lambda>(column_name, data_type, is_nullable).
       read_columns rows
         (cols @ [\<lparr>col_name = column_name, col_type = data_type,
                   col_nullable = (is_nullable = ''YES'')\<rparr>]))"

text \<open>The outer loop: one catalog query per table, the schema filled in as it goes.\<close>

fun read_tables :: "schema_env \<Rightarrow> string list list \<Rightarrow> db_schema \<Rightarrow> py_exn + db_schema" where
  "read_tables env [] schema = Inr schema"
| "read_tables env (row # rows) schema =
     and_then (unpack1 row) (\<lambda>table_name.
     and_then (sp_fetch env (columns_query table_name)) (\<lambda>column_rows.
     and_then (read_columns column_rows []) (\<lambda>cols.
       read_tables env rows (AList.update table_name \<lparr>columns = Some cols\<rparr> schema))))"

text \<open>
  The body of the \<open>try\<close> block: its result or the exception that left it, and the
  connection events up to that point.
\<close>

definition fetch_schema :: "schema_env \<Rightarrow> string \<Rightarrow> (py_exn + db_schema) \<times> conn_event list" where
  "fetch_schema env db_url =
     (case sp_connect env db_url of
        Some e \<Rightarrow> (Inl e, [])
      | None \<Rightarrow>
          (case sp_cursor env of
             Some e \<Rightarrow> (Inl e, [Connected])
           | None \<Rightarrow>
               (case and_then (sp_fetch env tables_query) (\<lambda>tables. read_tables env tables []) of
                  Inl e \<Rightarrow> (Inl e, [Connected])
                | Inr schema \<Rightarrow>
                    (case sp_close env of
                       Some e \<Rightarrow> (Inl e, [Connected])
                     | None \<Rightarrow> (Inr schema, [Connected, Closed])))))"

text \<open>
  \<open>get_database_schema\<close>: what the call returns or raises, and what happened to its
  connection. \<open>except Exception\<close> catches every exception of the model.
\<close>

definition get_database_schema :: "schema_env \<Rightarrow> (py_exn + db_schema) \<times> conn_event list" where
  "get_database_schema env =
     (let db_url = sp_database_url env
      in if db_url = None \<or> db_url = Some [] then (Inr get_hardcoded_schema, [])
         else case fetch_schema env (the db_url) of
                (Inr schema, events) \<Rightarrow> (Inr schema, events)
              | (Inl e, events) \<Rightarrow> (Inr get_hardcoded_schema, events))"

text \<open>
  Two databases for the statements below: one that refuses the connection, and one that
  accepts it and then fails the first catalog query.
\<close>

definition unreachable_db :: schema_env where
  "unreachable_db = \<lparr>sp_database_url = Some ''postgresql://db:5432/cars'',
     sp_connect = (\<lambda>url. Some (PsycopgError ''could not connect to server'')),
     sp_cursor = None, sp_fetch = (\<lambda>q. Inr []), sp_close = None\<rparr>"

definition failing_catalog_db :: schema_env where
  "failing_catalog_db = \<lparr>sp_database_url = Some ''postgresql://db:5432/cars'',
     sp_connect = (\<lambda>url. None), sp_cursor = None,
     sp_fetch = (\<lambda>q. Inl (PsycopgError ''permission denied for table pg_tables'')),
     sp_close = None\<rparr>"

section \<open>The query runner (query\_runner/main.py)\<close>

record execute_query_request =
  query :: string
  params :: "(string \<times> string) list option"

record execute_query_response =
  results :: "(string \<times> string) list list"
  row_count :: nat
  column_names :: "string list"

text \<open>
  What the environment and the driver answer during one request. \<open>qr_fetch q ps\<close> stands
  for \<open>cursor.execute(q, ps)\<close> followed by \<open>cursor.fetchall()\<close>: the rows, each a
  dictionary from column names to values, with \<open>cursor.description\<close> (the column names,
  when there is one), or the exception raised. \<open>qr_str\<close> is \<open>str\<close> on exceptions.
\<close>

record runner_env =
  qr_database_url :: "string option"
  qr_connect :: "string \<Rightarrow> py_exn option"
  qr_cursor :: "py_exn option"
  qr_fetch :: "string \<Rightarrow> (string \<times> string) list \<Rightarrow>
                py_exn + (string \<times> string) list list \<times> string list option"
  qr_cursor_close :: "py_exn option"
  qr_conn_close :: "py_exn option"
  qr_str :: "py_exn \<Rightarrow> string"

text \<open>\<open>except psycopg2.Error\<close> catches the driver's errors only.\<close>

fun is_psycopg2_error :: "py_exn \<Rightarrow> bool" where
  "is_psycopg2_error (PsycopgError m) = True"
| "is_psycopg2_error e = False"

text \<open>
  The inner \<open>try\<close> statement of \<open>execute_query\<close>: the statement is run and the response
  built; a driver error is replaced by an HTTPException with status 400; the
  \<open>finally\<close> clause closes cursor and connection, and an exception it raises replaces
  the outcome.
\<close>

definition run_statement :: "runner_env \<Rightarrow> execute_query_request \<Rightarrow> py_exn + execute_query_response" where
  "run_statement env request =
     (let tried =
            and_then (qr_fetch env (query request)
                        (case params request of None \<Rightarrow> [] | Some ps \<Rightarrow> ps))
              (\<lambda>(rows, description).
                 let results_list = rows
                 in Inr \<lparr>results = results_list, row_count = length results_list,
                         column_names = (case description of None \<Rightarrow> [] | Some ds \<Rightarrow> ds)\<rparr>);
          handled =
            (case tried of
               Inl e \<Rightarrow>
                 if is_psycopg2_error e
                 then Inl (HTTPException 400 (''Query execution error: '' @ qr_str env e))
                 else Inl e
             | Inr response \<Rightarrow> Inr response)
      in case qr_cursor_close env of
           Some e \<Rightarrow> Inl e
         | None \<Rightarrow> (case qr_conn_close env of Some e \<Rightarrow> Inl e | None \<Rightarrow> handled))"

text \<open>
  \<open>execute_query\<close>: the outer \<open>try\<close> statement. Its handler \<open>except Exception\<close> catches
  every exception raised inside, an HTTPException among them (the class derives from
  \<open>Exception\<close>), and raises an HTTPException with status 500 instead.
\<close>

definition execute_query :: "runner_env \<Rightarrow> execute_query_request \<Rightarrow> py_exn + execute_query_response" where
  "execute_query env request =
     (let body =
            (let db_url = qr_database_url env
             in if db_url = None \<or> db_url = Some []
                then Inl (HTTPException 500 ''Database connection not configured'')
                else case qr_connect env (the db_url) of
                       Some e \<Rightarrow> Inl e
                     | None \<Rightarrow>
                         (case qr_cursor env of
                            Some e \<Rightarrow> Inl e
                          | None \<Rightarrow> run_statement env request))
      in case body of
           Inl e \<Rightarrow> Inl (HTTPException 500 (''Error: '' @ qr_str env e))
         | Inr response \<Rightarrow> Inr response)"

text \<open>
  The status of the HTTP response: 200 for a returned value, the status of a raised
  HTTPException, 500 for any other exception.
\<close>

fun http_status :: "py_exn + 'a \<Rightarrow> nat" where
  "http_status (Inr response) = 200"
| "http_status (Inl (HTTPException status detail)) = status"
| "http_status (Inl e) = 500"

text \<open>\<open>str(n)\<close> for a natural number: its decimal digits.\<close>

fun str_nat :: "nat \<Rightarrow> string" where
  "str_nat n =
     (if n < 10 then [char_of (48 + n)]
      else str_nat (n div 10) @ [char_of (48 + n mod 10)])"

declare str_nat.simps [simp del]

text \<open>
  A database that runs \<open>SELECT 1 AS one\<close> and rejects every other statement with a
  syntax error. \<open>str\<close> of a driver error is its message; \<open>str\<close> of an HTTPException
  is its status, a colon, a space and its detail.
\<close>

definition working_db :: runner_env where
  "working_db = \<lparr>qr_database_url = Some ''postgresql://db:5432/cars'',
     qr_connect = (\<lambda>url. None), qr_cursor = None,
     qr_fetch = (\<lambda>q ps. if q = ''SELECT 1 AS one''
                          then Inr ([[(''one'', ''1'')]], Some [''one''])
                          else Inl (PsycopgError ''syntax error at or near SELEC'')),
     qr_cursor_close = None, qr_conn_close = None,
     qr_str = (\<lambda>e. case e of PsycopgError m \<Rightarrow> m
                     | HTTPException s d \<Rightarrow> str_nat s @ '': '' @ d
                     | OtherException m \<Rightarrow> m | _ \<Rightarrow> [])\<rparr>"

section \<open>Facts about the string operations\<close>

lemma find_first_Some_append: "find_first m s = Some (a, b) \<Longrightarrow> s = a @ m @ b"
proof (induction s arbitrary: a)
  case Nil
  then show ?case by (simp split: if_splits)
next
  case (Cons c cs)
  show ?case
  proof (cases "prefix m (c # cs)")
    case True
    then obtain t where t: "c # cs = m @ t" by (auto simp: prefix_def)
    from True Cons.prems have "a = []" and "b = drop (length m) (c # cs)" by simp_all
    then show ?thesis by (simp add: t)
  next
    case False
    with Cons.prems obtain a' where "find_first m cs = Some (a', b)" "a = c # a'"
      by auto
    with Cons.IH show ?thesis by simp
  qed
qed

lemma str_in_iff_find: "str_in m s \<longleftrightarrow> find_first m s \<noteq> None"
  by (induction s) auto

lemma str_in_append_left: "str_in m s \<Longrightarrow> str_in m (a @ s)"
  by (induction a) auto

lemma str_in_iff_ex: "str_in m s \<longleftrightarrow> (\<exists>a b. s = a @ m @ b)"
proof
  assume "str_in m s"
  then obtain a b where "find_first m s = Some (a, b)"
    by (auto simp: str_in_iff_find)
  then show "\<exists>a b. s = a @ m @ b" by (blast dest: find_first_Some_append)
next
  assume "\<exists>a b. s = a @ m @ b"
  then obtain a b where s: "s = a @ m @ b" by blast
  have "prefix m (m @ b)" by simp
  then have "str_in m (m @ b)" by (cases "m @ b") auto
  then show "str_in m s" unfolding s by (rule str_in_append_left)
qed

lemma find_first_text: 
  "str_in m s \<Longrightarrow> find_first m s = Some (text_before m s, text_after m s)"
  by (auto simp: str_in_iff_find text_before_def text_after_def)

lemma split1_index1:
  "m \<noteq> [] \<Longrightarrow> str_in m s \<Longrightarrow> and_then (split1 m s) (\<lambda>parts. index parts 1) = Inr (text_after m s)"
  by (auto simp: split1_def and_then_def index_def str_in_iff_find text_after_def)

lemma split1_index0:
  "m \<noteq> [] \<Longrightarrow> and_then (split1 m s) (\<lambda>parts. index parts 0) = Inr (text_before m s)"
  by (auto simp: split1_def and_then_def index_def text_before_def split: option.splits)

lemma extract_sql_eq:
  "extract_sql r = Inr (if str_in ''SQL:'' r
     then Some (strip (text_before ''EXPLANATION:'' (text_after ''SQL:'' r))) else None)"
  by (auto simp: extract_sql_def split1_def and_then_def index_def str_in_iff_find
        text_after_def text_before_def split: option.splits)

lemma extract_explanation_eq:
  "extract_explanation r = Inr (if str_in ''EXPLANATION:'' r
     then Some (strip (text_before ''CONFIDENCE:'' (text_after ''EXPLANATION:'' r))) else None)"
  by (auto simp: extract_explanation_def split1_def and_then_def index_def str_in_iff_find
        text_after_def text_before_def split: option.splits)

lemma extract_confidence_eq:
  "extract_confidence r = Inr (if str_in ''CONFIDENCE:'' r
     then (case py_float (strip (text_after ''CONFIDENCE:'' r)) of
             Some v \<Rightarrow> v | None \<Rightarrow> Finite (1 / 2))
     else Finite 0)"
  by (auto simp: extract_confidence_def split1_def and_then_def index_def str_in_iff_find
        text_after_def split: option.splits)

lemma parse_llm_response_eq:
  "parse_llm_response r = Inr
     (if str_in ''SQL:'' r \<and> strip (text_before ''EXPLANATION:'' (text_after ''SQL:'' r)) \<noteq> []
      then strip (text_before ''EXPLANATION:'' (text_after ''SQL:'' r))
      else ''SELECT * FROM cars LIMIT 10;'',
      if str_in ''EXPLANATION:'' r
      then Some (strip (text_before ''CONFIDENCE:'' (text_after ''EXPLANATION:'' r))) else None,
      if str_in ''CONFIDENCE:'' r
      then (case py_float (strip (text_after ''CONFIDENCE:'' r)) of
             Some v \<Rightarrow> v | None \<Rightarrow> Finite (1 / 2))
      else Finite 0)"
  unfolding parse_llm_response_def extract_sql_eq extract_explanation_eq extract_confidence_eq
  by (simp add: and_then_def)

lemma all_dropWhile: "(\<forall>x\<in>set (dropWhile P s). P x) \<longleftrightarrow> (\<forall>x\<in>set s. P x)"
  by (induction s) auto

lemma strip_Nil_iff: "strip s = [] \<longleftrightarrow> list_all is_space s"
  by (simp add: strip_def lstrip_def rstrip_def dropWhile_eq_Nil_conv list_all_iff all_dropWhile)


lemma find_first_leftmost:
  "find_first m s = Some (a', b') \<Longrightarrow> s = a @ m @ t \<Longrightarrow> length a' \<le> length a"
proof (induction s arbitrary: a a')
  case Nil
  then show ?case by (simp split: if_splits)
next
  case (Cons c cs)
  show ?case
  proof (cases "prefix m (c # cs)")
    case True
    with Cons.prems(1) show ?thesis by simp
  next
    case False
    with Cons.prems(1) obtain a'' where a'': "find_first m cs = Some (a'', b')" "a' = c # a''"
      by auto
    from False Cons.prems(2) have "a \<noteq> []" by auto
    with Cons.prems(2) obtain a0 where a0: "a = c # a0" "cs = a0 @ m @ t"
      by (cases a) auto
    from Cons.IH [OF a''(1) a0(2)] show ?thesis by (simp add: a'' a0)
  qed
qed

lemma text_after_contains:
  assumes "str_in (m @ t) r"
  shows "set t \<subseteq> set (text_after m r)"
proof -
  from assms obtain a b where r: "r = a @ m @ (t @ b)" by (auto simp: str_in_iff_ex)
  then have "str_in m r" by (auto simp: str_in_iff_ex)
  then have ff: "find_first m r = Some (text_before m r, text_after m r)"
    by (rule find_first_text)
  from find_first_leftmost [OF ff r] have le: "length (text_before m r) \<le> length a" .
  from find_first_Some_append [OF ff] have r': "r = text_before m r @ m @ text_after m r" .
  have "drop (length a + length m) r = t @ b" by (simp add: r)
  moreover have "drop (length a + length m) r
      = drop (length a - length (text_before m r)) (text_after m r)"
    using le by (subst r') simp
  ultimately have "t @ b = drop (length a - length (text_before m r)) (text_after m r)" by simp
  then have "set (t @ b) \<subseteq> set (text_after m r)" by (metis set_drop_subset)
  then show ?thesis by simp
qed

lemma dropWhile_keeps: "c \<in> set s \<Longrightarrow> \<not> P c \<Longrightarrow> c \<in> set (dropWhile P s)"
  by (induction s) auto

lemma strip_keeps: "c \<in> set s \<Longrightarrow> \<not> is_space c \<Longrightarrow> c \<in> set (strip s)"
  by (simp add: strip_def lstrip_def rstrip_def dropWhile_keeps)

lemma str_in_self_append: "str_in m (a @ m @ b)"
  unfolding str_in_iff_ex by blast

lemma find_first_skip_char:
  assumes "c \<notin> set m" and "m \<noteq> []" and "\<not> str_in m a"
  shows "find_first m (a @ c # b) = map_option (\<lambda>(x, y). (a @ c # x, y)) (find_first m b)"
  using assms(3)
proof (induction a)
  case Nil
  from assms(1,2) have "\<not> prefix m (c # b)" by (cases m) auto
  then show ?case by simp
next
  case (Cons x a)
  from Cons.prems have np: "\<not> prefix m (x # a)" and ns: "\<not> str_in m a" by simp_all
  have "\<not> prefix m ((x # a) @ c # b)"
  proof
    assume "prefix m ((x # a) @ c # b)"
    with np obtain us where us: "m = (x # a) @ us" "prefix us (c # b)"
      unfolding prefix_append by blast
    from np us(1) have "us \<noteq> []" by auto
    with us(2) obtain us' where "us = c # us'" by (cases us) auto
    with us(1) assms(1) show False by simp
  qed
  then have "find_first m ((x # a) @ c # b)
      = map_option (\<lambda>(p, q). (x # p, q)) (find_first m (a @ c # b))" by simp
  also have "\<dots> = map_option (\<lambda>(p, q). ((x # a) @ c # p, q)) (find_first m b)"
    by (simp add: Cons.IH [OF ns] option.map_comp comp_def split_def)
  finally show ?case .
qed

lemma str_in_skip_char:
  assumes "c \<notin> set m" and "m \<noteq> []"
  shows "str_in m (a @ c # b) \<longleftrightarrow> str_in m a \<or> str_in m b"
proof (cases "str_in m a")
  case True
  then obtain p q where "a = p @ m @ q" unfolding str_in_iff_ex by blast
  then have "a @ c # b = p @ m @ (q @ c # b)" by simp
  then have "str_in m (a @ c # b)" unfolding str_in_iff_ex by blast
  with True show ?thesis by simp
next
  case False
  from find_first_skip_char [OF assms False, of b] False show ?thesis
    by (simp add: str_in_iff_find)
qed

lemma str_in_snoc:
  assumes "m \<noteq> []" and "last m \<noteq> c"
  shows "str_in m (a @ [c]) \<longleftrightarrow> str_in m a"
proof
  assume "str_in m (a @ [c])"
  then obtain p q where pq: "a @ [c] = p @ m @ q" unfolding str_in_iff_ex by blast
  show "str_in m a"
  proof (cases q rule: rev_cases)
    case Nil
    with pq have "last (a @ [c]) = last (p @ m)" by simp
    with assms show ?thesis by simp
  next
    case (snoc q' d)
    with pq have "a @ [c] = (p @ m @ q') @ [d]" by simp
    then have "a = p @ m @ q'" by (simp only: append1_eq_conv)
    then show ?thesis unfolding str_in_iff_ex by blast
  qed
next
  assume "str_in m a"
  then obtain p q where "a = p @ m @ q" unfolding str_in_iff_ex by blast
  then have "a @ [c] = p @ m @ (q @ [c])" by simp
  then show "str_in m (a @ [c])" unfolding str_in_iff_ex by blast
qed

text \<open>No marker overlaps another one: a search skips a marker of another field whole.\<close>

lemma explanation_skips_sql:
  assumes "\<not> str_in ''EXPLANATION:'' a"
  shows "find_first ''EXPLANATION:'' (a @ ''SQL:'' @ b)
     = map_option (\<lambda>(x, y). (a @ ''SQL:'' @ x, y)) (find_first ''EXPLANATION:'' b)"
proof -
  have "find_first ''EXPLANATION:'' (a @ CHR ''S'' # (''QL:'' @ b))
      = map_option (\<lambda>(x, y). (a @ CHR ''S'' # x, y)) (find_first ''EXPLANATION:'' (''QL:'' @ b))"
    by (rule find_first_skip_char [OF _ _ assms]) simp_all
  then show ?thesis by (simp add: option.map_comp comp_def split_def)
qed

lemma confidence_skips_sql:
  assumes "\<not> str_in ''CONFIDENCE:'' a"
  shows "find_first ''CONFIDENCE:'' (a @ ''SQL:'' @ b)
     = map_option (\<lambda>(x, y). (a @ ''SQL:'' @ x, y)) (find_first ''CONFIDENCE:'' b)"
proof -
  have "find_first ''CONFIDENCE:'' (a @ CHR ''S'' # (''QL:'' @ b))
      = map_option (\<lambda>(x, y). (a @ CHR ''S'' # x, y)) (find_first ''CONFIDENCE:'' (''QL:'' @ b))"
    by (rule find_first_skip_char [OF _ _ assms]) simp_all
  then show ?thesis by (simp add: option.map_comp comp_def split_def)
qed

lemma confidence_skips_explanation:
  assumes "\<not> str_in ''CONFIDENCE:'' a"
  shows "find_first ''CONFIDENCE:'' (a @ ''EXPLANATION:'' @ b)
     = map_option (\<lambda>(x, y). (a @ ''EXPLANATION:'' @ x, y)) (find_first ''CONFIDENCE:'' b)"
proof -
  from assms have n: "\<not> str_in ''CONFIDENCE:'' (a @ ''E'')"
    by (subst str_in_snoc) simp_all
  have "find_first ''CONFIDENCE:'' ((a @ ''E'') @ CHR ''X'' # (''PLANATION:'' @ b))
      = map_option (\<lambda>(x, y). ((a @ ''E'') @ CHR ''X'' # x, y))
          (find_first ''CONFIDENCE:'' (''PLANATION:'' @ b))"
    by (rule find_first_skip_char [OF _ _ n]) simp_all
  then show ?thesis by (simp add: option.map_comp comp_def split_def)
qed


lemma find_first_here: "m \<noteq> [] \<Longrightarrow> find_first m (m @ b) = Some ([], b)"
  by (cases m) simp_all

lemma find_first_field:
  assumes "c \<notin> set m" and "m \<noteq> []" and "\<not> str_in m a"
  shows "find_first m (a @ c # m @ b) = Some (a @ [c], b)"
  by (simp add: find_first_skip_char [OF assms] find_first_here [OF assms(2)])

lemma strip_Cons_space: "is_space c \<Longrightarrow> strip (c # s) = strip s"
  by (simp add: strip_def lstrip_def)

lemma strip_snoc_space:
  assumes "is_space c"
  shows "strip (s @ [c]) = strip s"
proof (cases "\<forall>x\<in>set s. is_space x")
  case True
  with assms have "dropWhile is_space (s @ [c]) = []" "dropWhile is_space s = []"
    by (simp_all add: dropWhile_eq_Nil_conv)
  then show ?thesis by (simp only: strip_def lstrip_def)
next
  case False
  then obtain x where "x \<in> set s" "\<not> is_space x" by blast
  then have "dropWhile is_space (s @ [c]) = dropWhile is_space s @ [c]"
    by (rule dropWhile_append1)
  with assms show ?thesis by (simp add: strip_def lstrip_def rstrip_def)
qed

lemma sql_step_eq:
  "sql_step t =
     (if str_in ''SQL:'' t
      then (Some (strip (text_before ''EXPLANATION:'' (text_after ''SQL:'' t))),
            if str_in ''EXPLANATION:'' (text_after ''SQL:'' t)
            then ''EXPLANATION:'' @ text_after ''EXPLANATION:'' (text_after ''SQL:'' t) else [])
      else (None, t))"
  by (auto simp: sql_step_def str_in_iff_find text_after_def text_before_def split: option.splits)

lemma explanation_step_eq:
  "explanation_step t =
     (if str_in ''EXPLANATION:'' t
      then (Some (strip (text_before ''CONFIDENCE:'' (text_after ''EXPLANATION:'' t))),
            if str_in ''CONFIDENCE:'' (text_after ''EXPLANATION:'' t)
            then ''CONFIDENCE:'' @ text_after ''CONFIDENCE:'' (text_after ''EXPLANATION:'' t) else [])
      else (None, t))"
  by (auto simp: explanation_step_def str_in_iff_find text_after_def text_before_def
      split: option.splits)

lemma confidence_step_eq:
  "confidence_step t =
     (if str_in ''CONFIDENCE:'' t
      then (case py_float (strip (text_after ''CONFIDENCE:'' t)) of
              Some v \<Rightarrow> v | None \<Rightarrow> Finite (1 / 2))
      else Finite 0)"
  by (auto simp: confidence_step_def str_in_iff_find text_after_def split: option.splits)

lemma text_split:
  assumes "str_in m r"
  shows "r = text_before m r @ m @ text_after m r"
  using find_first_text [OF assms] by (rule find_first_Some_append)

lemma explanation_after_sql:
  assumes "str_in ''SQL:'' r" and "\<not> str_in ''EXPLANATION:'' (text_before ''SQL:'' r)"
  shows "str_in ''EXPLANATION:'' r = str_in ''EXPLANATION:'' (text_after ''SQL:'' r)"
    and "text_after ''EXPLANATION:'' r = text_after ''EXPLANATION:'' (text_after ''SQL:'' r)"
proof -
  have "find_first ''EXPLANATION:'' (text_before ''SQL:'' r @ ''SQL:'' @ text_after ''SQL:'' r)
      = map_option (\<lambda>(x, y). (text_before ''SQL:'' r @ ''SQL:'' @ x, y))
          (find_first ''EXPLANATION:'' (text_after ''SQL:'' r))"
    using assms(2) by (rule explanation_skips_sql)
  then have ff: "find_first ''EXPLANATION:'' r
      = map_option (\<lambda>(x, y). (text_before ''SQL:'' r @ ''SQL:'' @ x, y))
          (find_first ''EXPLANATION:'' (text_after ''SQL:'' r))"
    by (simp only: text_split [OF assms(1), symmetric])
  show "str_in ''EXPLANATION:'' r = str_in ''EXPLANATION:'' (text_after ''SQL:'' r)"
    unfolding str_in_iff_find ff by simp
  show "text_after ''EXPLANATION:'' r = text_after ''EXPLANATION:'' (text_after ''SQL:'' r)"
    unfolding text_after_def ff by (simp split: option.splits)
qed

lemma confidence_after_explanation:
  assumes "str_in ''EXPLANATION:'' r"
    and "\<not> str_in ''CONFIDENCE:'' (text_before ''EXPLANATION:'' r)"
  shows "str_in ''CONFIDENCE:'' r = str_in ''CONFIDENCE:'' (text_after ''EXPLANATION:'' r)"
    and "text_after ''CONFIDENCE:'' r = text_after ''CONFIDENCE:'' (text_after ''EXPLANATION:'' r)"
proof -
  have "find_first ''CONFIDENCE:''
        (text_before ''EXPLANATION:'' r @ ''EXPLANATION:'' @ text_after ''EXPLANATION:'' r)
      = map_option (\<lambda>(x, y). (text_before ''EXPLANATION:'' r @ ''EXPLANATION:'' @ x, y))
          (find_first ''CONFIDENCE:'' (text_after ''EXPLANATION:'' r))"
    using assms(2) by (rule confidence_skips_explanation)
  then have ff: "find_first ''CONFIDENCE:'' r
      = map_option (\<lambda>(x, y). (text_before ''EXPLANATION:'' r @ ''EXPLANATION:'' @ x, y))
          (find_first ''CONFIDENCE:'' (text_after ''EXPLANATION:'' r))"
    by (simp only: text_split [OF assms(1), symmetric])
  show "str_in ''CONFIDENCE:'' r = str_in ''CONFIDENCE:'' (text_after ''EXPLANATION:'' r)"
    unfolding str_in_iff_find ff by simp
  show "text_after ''CONFIDENCE:'' r = text_after ''CONFIDENCE:'' (text_after ''EXPLANATION:'' r)"
    unfolding text_after_def ff by (simp split: option.splits)
qed

lemma marker_first:
  "text_after ''EXPLANATION:'' (CHR ''E'' # CHR ''X'' # CHR ''P'' # CHR ''L'' # CHR ''A'' #
     CHR ''N'' # CHR ''A'' # CHR ''T'' # CHR ''I'' # CHR ''O'' # CHR ''N'' # CHR '':'' # x) = x"
  "text_after ''CONFIDENCE:'' (CHR ''C'' # CHR ''O'' # CHR ''N'' # CHR ''F'' # CHR ''I'' #
     CHR ''D'' # CHR ''E'' # CHR ''N'' # CHR ''C'' # CHR ''E'' # CHR '':'' # x) = x"
  by (simp_all add: text_after_def)

section \<open>Facts about float literals\<close>

lemma digitpart_chars: "digitpart s \<Longrightarrow> c \<in> set s \<Longrightarrow> is_digit c \<or> c = CHR ''_''"
  by (induction s rule: digitpart.induct) (auto split: if_splits)

lemma hd_dropWhile_dot: "dropWhile (\<lambda>c. c \<noteq> CHR ''.'') s = d # fp \<Longrightarrow> d = CHR ''.''"
  using hd_dropWhile [of "\<lambda>c. c \<noteq> CHR ''.''" s] by simp

lemma take_sign_chars: "take_sign s = (neg, body) \<Longrightarrow> c \<in> set s \<Longrightarrow>
   c \<in> set body \<or> c = CHR ''-'' \<or> c = CHR ''+''"
  by (cases s) (auto split: if_splits)


lemma number_chars:
  assumes "number s = Some x" and "c \<in> set s"
  shows "is_digit c \<or> c = CHR ''_'' \<or> c = CHR ''.''"
proof -
  let ?P = "\<lambda>c. c \<noteq> CHR ''.''"
  have "set s = set (takeWhile ?P s) \<union> set (dropWhile ?P s)"
    by (subst takeWhile_dropWhile_id [of ?P s, symmetric]) (simp only: set_append)
  with assms(2) have c: "c \<in> set (takeWhile ?P s) \<or> c \<in> set (dropWhile ?P s)" by simp
  show ?thesis
  proof (cases "dropWhile ?P s")
    case Nil
    with assms(1) have "digitpart (takeWhile ?P s)"
      by (simp add: number_def Let_def split: if_splits)
    moreover from c have "c \<in> set (takeWhile ?P s)" unfolding Nil by simp
    ultimately show ?thesis by (blast dest: digitpart_chars)
  next
    case (Cons d fp)
    then have d: "d = CHR ''.''" by (rule hd_dropWhile_dot)
    from c Cons have c': "c \<in> set (takeWhile ?P s) \<or> c = d \<or> c \<in> set fp" by auto
    have ip: "digitpart (takeWhile ?P s)" if "c \<in> set (takeWhile ?P s)"
    proof -
      from that have "takeWhile ?P s \<noteq> []" by auto
      with assms(1) Cons show ?thesis
        by (simp add: number_def Let_def split: if_splits)
    qed
    have fp: "digitpart fp" if "c \<in> set fp"
    proof -
      from that have "fp \<noteq> []" by auto
      with assms(1) Cons show ?thesis
        by (simp add: number_def Let_def split: if_splits)
    qed
    from c' ip fp d show ?thesis by (blast dest: digitpart_chars)
  qed
qed

lemma exponent_chars:
  assumes "exponent s = Some x" and "c \<in> set s"
  shows "is_digit c \<or> c = CHR ''_'' \<or> c = CHR ''-'' \<or> c = CHR ''+''"
proof -
  obtain neg ds where ts: "take_sign s = (neg, ds)" by (cases "take_sign s")
  with assms(1) have "digitpart ds" by (simp add: exponent_def split: if_splits)
  with take_sign_chars [OF ts assms(2)] show ?thesis by (blast dest: digitpart_chars)
qed


lemma hd_dropWhile_e: "dropWhile not_e s = d # rest \<Longrightarrow> d = CHR ''e'' \<or> d = CHR ''E''"
  using hd_dropWhile [of not_e s] by (auto simp: not_e_def)

lemma floatnumber_chars:
  assumes "floatnumber neg body = Some v" and c: "c \<in> set body"
  shows "is_digit c \<or> c \<in> set ''_.eE+-''"
proof -
  from assms(1) obtain ip fp where num: "number (takeWhile not_e body) = Some (ip, fp)"
    by (cases "number (takeWhile not_e body)") (auto simp: floatnumber_def Let_def)
  have "set body = set (takeWhile not_e body) \<union> set (dropWhile not_e body)"
    by (subst takeWhile_dropWhile_id [of not_e body, symmetric]) (simp only: set_append)
  with c have "c \<in> set (takeWhile not_e body) \<or> c \<in> set (dropWhile not_e body)" by simp
  then show ?thesis
  proof
    assume "c \<in> set (takeWhile not_e body)"
    from number_chars [OF num this] show ?thesis by auto
  next
    assume cd: "c \<in> set (dropWhile not_e body)"
    then obtain d rest where dr: "dropWhile not_e body = d # rest"
      by (cases "dropWhile not_e body") auto
    from hd_dropWhile_e [OF dr] have d: "d = CHR ''e'' \<or> d = CHR ''E''" .
    from assms(1) num dr obtain ex where "exponent rest = Some ex"
      by (cases "exponent rest") (auto simp: floatnumber_def Let_def)
    from exponent_chars [OF this] cd d show ?thesis unfolding dr by auto
  qed
qed


text \<open>A character that no float literal contains makes \<open>float\<close> fail.\<close>

lemma py_float_rejects:
  assumes c: "c \<in> set s" and nd: "\<not> is_digit c" and ns: "c \<notin> set ''_.eE+-''"
    and nl: "ascii_lower c \<notin> set ''infinityan''"
  shows "py_float s = None"
proof (rule ccontr)
  assume "py_float s \<noteq> None"
  then obtain v where v: "py_float s = Some v" by blast
  obtain neg body where ts: "take_sign s = (neg, body)" by (cases "take_sign s")
  from take_sign_chars [OF ts c] ns have cb: "c \<in> set body" by auto
  then have lc: "ascii_lower c \<in> set (map ascii_lower body)" by simp
  have low1: "map ascii_lower body \<noteq> ''inf''"
  proof
    assume e: "map ascii_lower body = ''inf''"
    from lc have "ascii_lower c \<in> set ''inf''" unfolding e .
    with nl show False by simp
  qed
  have low2: "map ascii_lower body \<noteq> ''infinity''"
  proof
    assume e: "map ascii_lower body = ''infinity''"
    from lc have "ascii_lower c \<in> set ''infinity''" unfolding e .
    with nl show False by simp
  qed
  have low3: "map ascii_lower body \<noteq> ''nan''"
  proof
    assume e: "map ascii_lower body = ''nan''"
    from lc have "ascii_lower c \<in> set ''nan''" unfolding e .
    with nl show False by simp
  qed
  from v have "floatnumber neg body = Some v"
    unfolding py_float_def ts by (simp only: Let_def split low1 low2 low3 if_False simp_thms)
  from floatnumber_chars [OF this cb] nd ns show False by simp
qed

lemma notanumber_rejected:
  assumes "str_in ''CONFIDENCE: notanumber'' r"
  shows "str_in ''CONFIDENCE:'' r \<and> py_float (strip (text_after ''CONFIDENCE:'' r)) = None"
proof -
  have split: "''CONFIDENCE: notanumber'' = ''CONFIDENCE:'' @ '' notanumber''" by simp
  from assms obtain a b where "r = a @ ''CONFIDENCE:'' @ ('' notanumber'' @ b)"
    unfolding str_in_iff_ex by auto
  then have m: "str_in ''CONFIDENCE:'' r" unfolding str_in_iff_ex by blast
  from assms have "set '' notanumber'' \<subseteq> set (text_after ''CONFIDENCE:'' r)"
    unfolding split by (rule text_after_contains)
  then have "CHR ''o'' \<in> set (text_after ''CONFIDENCE:'' r)" by simp
  then have "CHR ''o'' \<in> set (strip (text_after ''CONFIDENCE:'' r))"
    by (rule strip_keeps) (simp add: is_space_def)
  then have "py_float (strip (text_after ''CONFIDENCE:'' r)) = None"
    by (rule py_float_rejects) (simp_all add: is_digit_def ascii_lower_def)
  with m show ?thesis ..
qed

section \<open>Claims about the response parser\<close>

text \<open>
  C6: a response that does not contain the marker \<open>SQL:\<close> parses to the fixed fallback
  statement \<open>SELECT * FROM cars LIMIT 10;\<close>, whatever else it contains, and the parser
  returns (it does not raise).
\<close>

theorem missing_sql_fallback:
  "\<not> str_in ''SQL:'' r \<Longrightarrow>
   \<exists>e c. parse_llm_response r = Inr (''SELECT * FROM cars LIMIT 10;'', e, c)"
  by (simp add: parse_llm_response_eq)

theorem missing_sql_fallback_witness:
  "\<not> str_in ''SQL:'' ''EXPLANATION: none CONFIDENCE: 0.5'' \<and>
   (\<exists>e c. parse_llm_response ''EXPLANATION: none CONFIDENCE: 0.5''
      = Inr (''SELECT * FROM cars LIMIT 10;'', e, c))"
proof -
  have h: "\<not> str_in ''SQL:'' ''EXPLANATION: none CONFIDENCE: 0.5''" by simp
  from h missing_sql_fallback [OF h] show ?thesis by (rule conjI)
qed

text \<open>
  C10: the fallback statement is also substituted when the marker \<open>SQL:\<close> is present
  and the text between it and the next \<open>EXPLANATION:\<close> (or the end of the text) is
  empty or whitespace only.
\<close>

theorem empty_sql_fallback:
  "str_in ''SQL:'' r \<Longrightarrow>
   list_all is_space (text_before ''EXPLANATION:'' (text_after ''SQL:'' r)) \<Longrightarrow>
   \<exists>e c. parse_llm_response r = Inr (''SELECT * FROM cars LIMIT 10;'', e, c)"
  by (simp add: parse_llm_response_eq strip_Nil_iff)

theorem empty_sql_fallback_witness:
  "str_in ''SQL:'' ''SQL:  EXPLANATION: nothing'' \<and>
   list_all is_space (text_before ''EXPLANATION:'' (text_after ''SQL:'' ''SQL:  EXPLANATION: nothing'')) \<and>
   (\<exists>e c. parse_llm_response ''SQL:  EXPLANATION: nothing''
      = Inr (''SELECT * FROM cars LIMIT 10;'', e, c))"
proof -
  have h1: "str_in ''SQL:'' ''SQL:  EXPLANATION: nothing''" by simp
  have h2: "list_all is_space
      (text_before ''EXPLANATION:'' (text_after ''SQL:'' ''SQL:  EXPLANATION: nothing''))"
    by (simp add: text_before_def text_after_def is_space_def)
  from h1 h2 empty_sql_fallback [OF h1 h2] show ?thesis by blast
qed

text \<open>
  C7: when the marker \<open>CONFIDENCE:\<close> is present and the stripped text after its first
  occurrence is not a float literal, the confidence is exactly 0.5; so it is for every
  response that contains \<open>CONFIDENCE: notanumber\<close>; when the marker is absent the
  confidence is exactly 0.0. In each case the parser returns.
\<close>

theorem confidence_default_split:
  "(str_in ''CONFIDENCE:'' r \<and> py_float (strip (text_after ''CONFIDENCE:'' r)) = None
      \<longrightarrow> (\<exists>s e. parse_llm_response r = Inr (s, e, Finite (1 / 2)))) \<and>
   (str_in ''CONFIDENCE: notanumber'' r
      \<longrightarrow> (\<exists>s e. parse_llm_response r = Inr (s, e, Finite (1 / 2)))) \<and>
   (\<not> str_in ''CONFIDENCE:'' r
      \<longrightarrow> (\<exists>s e. parse_llm_response r = Inr (s, e, Finite 0)))"
proof (intro conjI impI)
  assume "str_in ''CONFIDENCE:'' r \<and> py_float (strip (text_after ''CONFIDENCE:'' r)) = None"
  then show "\<exists>s e. parse_llm_response r = Inr (s, e, Finite (1 / 2))"
    by (simp add: parse_llm_response_eq)
next
  assume "str_in ''CONFIDENCE: notanumber'' r"
  from notanumber_rejected [OF this]
  show "\<exists>s e. parse_llm_response r = Inr (s, e, Finite (1 / 2))"
    by (simp add: parse_llm_response_eq)
next
  assume "\<not> str_in ''CONFIDENCE:'' r"
  then show "\<exists>s e. parse_llm_response r = Inr (s, e, Finite 0)"
    by (simp add: parse_llm_response_eq)
qed

theorem confidence_default_split_witness:
  "str_in ''CONFIDENCE:'' ''CONFIDENCE: notanumber'' \<and>
   py_float (strip (text_after ''CONFIDENCE:'' ''CONFIDENCE: notanumber'')) = None \<and>
   str_in ''CONFIDENCE: notanumber'' ''CONFIDENCE: notanumber'' \<and>
   (\<exists>s e. parse_llm_response ''CONFIDENCE: notanumber'' = Inr (s, e, Finite (1 / 2))) \<and>
   \<not> str_in ''CONFIDENCE:'' ''SQL: SELECT 1;'' \<and>
   (\<exists>s e. parse_llm_response ''SQL: SELECT 1;'' = Inr (s, e, Finite 0))"
proof -
  have h1: "str_in ''CONFIDENCE:'' ''CONFIDENCE: notanumber''" by simp
  have h2: "py_float (strip (text_after ''CONFIDENCE:'' ''CONFIDENCE: notanumber'')) = None"
    by code_simp
  have h3: "str_in ''CONFIDENCE: notanumber'' ''CONFIDENCE: notanumber''" by simp
  have h4: "\<not> str_in ''CONFIDENCE:'' ''SQL: SELECT 1;''" by simp
  from confidence_default_split [of "''CONFIDENCE: notanumber''"] h1 h2
  have c1: "\<exists>s e. parse_llm_response ''CONFIDENCE: notanumber'' = Inr (s, e, Finite (1 / 2))"
    by blast
  from confidence_default_split [of "''SQL: SELECT 1;''"] h4
  have c2: "\<exists>s e. parse_llm_response ''SQL: SELECT 1;'' = Inr (s, e, Finite 0)"
    by blast
  from h1 h2 h3 c1 h4 c2 show ?thesis by blast
qed

text \<open>
  C4, as amended: the parser returns the confidence as parsed, without clamping. It is
  0.0 without the marker \<open>CONFIDENCE:\<close>, 0.5 when the stripped text after the first
  marker is not a float literal, and otherwise the float that \<open>float\<close> returns for that
  text; hence it lies in the interval from 0 to 1 exactly when the marker is absent, the
  text is not a float literal, or the float that \<open>float\<close> returns lies in that
  interval.
\<close>

theorem confidence_as_parsed:
  "\<exists>s e c. parse_llm_response r = Inr (s, e, c) \<and>
     c = (if str_in ''CONFIDENCE:'' r
          then (case py_float (strip (text_after ''CONFIDENCE:'' r)) of
                  Some v \<Rightarrow> v | None \<Rightarrow> Finite (1 / 2))
          else Finite 0) \<and>
     (in_unit c \<longleftrightarrow>
        \<not> str_in ''CONFIDENCE:'' r \<or>
        (case py_float (strip (text_after ''CONFIDENCE:'' r)) of
           Some v \<Rightarrow> in_unit v | None \<Rightarrow> True))"
  by (simp add: parse_llm_response_eq split: option.splits)

theorem confidence_as_parsed_witness:
  "str_in ''CONFIDENCE:'' ''CONFIDENCE: 0.25'' \<and>
   py_float (strip (text_after ''CONFIDENCE:'' ''CONFIDENCE: 0.25'')) = Some (Finite (1 / 4)) \<and>
   (\<exists>s e c. parse_llm_response ''CONFIDENCE: 0.25'' = Inr (s, e, c) \<and> c = Finite (1 / 4)
      \<and> in_unit c)"
proof -
  have h1: "str_in ''CONFIDENCE:'' ''CONFIDENCE: 0.25''" by simp
  have h2: "py_float (strip (text_after ''CONFIDENCE:'' ''CONFIDENCE: 0.25''))
      = Some (Finite (1 / 4))"
    by code_simp
  from confidence_as_parsed [of "''CONFIDENCE: 0.25''"] h1 h2 show ?thesis
    by (simp only: if_True option.case simp_thms in_unit.simps) simp
qed

text \<open>
  C4 as stated fails: the response \<open>CONFIDENCE: 5\<close> parses to the confidence 5.0,
  outside the interval.
\<close>

theorem confidence_outside_unit_counterexample:
  "parse_llm_response ''CONFIDENCE: 5''
     = Inr (''SELECT * FROM cars LIMIT 10;'', None, Finite 5) \<and> \<not> in_unit (Finite 5)"
proof
  show "parse_llm_response ''CONFIDENCE: 5''
     = Inr (''SELECT * FROM cars LIMIT 10;'', None, Finite 5)"
    by code_simp
  show "\<not> in_unit (Finite 5)" by simp
qed

text \<open>
  C1, as amended: when neither \<open>S\<close> nor \<open>E\<close> contains a marker, \<open>S\<close> is not empty
  after trimming, and \<open>C\<close> is a text that \<open>float\<close> reads as the confidence \<open>c\<close> in the
  interval from 0 to 1, parsing \<open>SQL: S\<close>, \<open>EXPLANATION: E\<close>, \<open>CONFIDENCE: C\<close> on three
  lines gives back the trimmed \<open>S\<close>, the trimmed \<open>E\<close> and \<open>c\<close>.
\<close>

theorem parser_round_trip:
  assumes S: "\<not> str_in ''SQL:'' S" "\<not> str_in ''EXPLANATION:'' S" "\<not> str_in ''CONFIDENCE:'' S"
    and E: "\<not> str_in ''SQL:'' E" "\<not> str_in ''EXPLANATION:'' E" "\<not> str_in ''CONFIDENCE:'' E"
    and nonempty: "strip S \<noteq> []"
    and C: "py_float (strip C) = Some c" "in_unit c"
  shows "parse_llm_response
           (''SQL: '' @ S @ ''\<newline>'' @ ''EXPLANATION: '' @ E @ ''\<newline>'' @ ''CONFIDENCE: '' @ C)
         = Inr (strip S, Some (strip E), c)"
proof -
  let ?t3 = "CHR '' '' # C"
  let ?t2 = "(CHR '' '' # E) @ CHR ''\<newline>'' # ''CONFIDENCE:'' @ ?t3"
  let ?t1 = "(CHR '' '' # S) @ CHR ''\<newline>'' # ''EXPLANATION:'' @ ?t2"
  let ?r = "''SQL: '' @ S @ ''\<newline>'' @ ''EXPLANATION: '' @ E @ ''\<newline>'' @ ''CONFIDENCE: '' @ C"
  have r1: "?r = ''SQL:'' @ ?t1" by simp
  have r2: "?r = (''SQL: '' @ S) @ CHR ''\<newline>'' # ''EXPLANATION:'' @ ?t2" by simp
  have r3: "?r = (''SQL: '' @ S @ CHR ''\<newline>'' # (''EXPLANATION: '' @ E))
                 @ CHR ''\<newline>'' # ''CONFIDENCE:'' @ ?t3" by simp
  have sql: "find_first ''SQL:'' ?r = Some ([], ?t1)"
    unfolding r1 by (rule find_first_here) simp
  have sql_end: "find_first ''EXPLANATION:'' ?t1 = Some ((CHR '' '' # S) @ ''\<newline>'', ?t2)"
    by (rule find_first_field) (simp_all add: S)
  have expl: "find_first ''EXPLANATION:'' ?r = Some ((''SQL: '' @ S) @ ''\<newline>'', ?t2)"
    unfolding r2 by (rule find_first_field) (simp_all add: S)
  have expl_end: "find_first ''CONFIDENCE:'' ?t2 = Some ((CHR '' '' # E) @ ''\<newline>'', ?t3)"
    by (rule find_first_field) (simp_all add: E)
  have "\<not> str_in ''CONFIDENCE:'' ((''SQL: '' @ S) @ CHR ''\<newline>'' # (''EXPLANATION: '' @ E))"
    by (subst str_in_skip_char) (simp_all add: S E)
  then have no_conf: "\<not> str_in ''CONFIDENCE:'' (''SQL: '' @ S @ CHR ''\<newline>'' # (''EXPLANATION: '' @ E))"
    by simp
  have conf: "find_first ''CONFIDENCE:'' ?r
      = Some ((''SQL: '' @ S @ CHR ''\<newline>'' # (''EXPLANATION: '' @ E)) @ ''\<newline>'', ?t3)"
    unfolding r3 by (rule find_first_field [OF _ _ no_conf]) simp_all
  have sp: "is_space CHR '' ''" "is_space CHR ''\<newline>''" by (simp_all add: is_space_def)
  have strip_field: "strip ((CHR '' '' # x) @ ''\<newline>'') = strip x" for x
    using strip_snoc_space [OF sp(2), of "CHR '' '' # x"] strip_Cons_space [OF sp(1), of x]
    by simp
  have strip_last: "strip ?t3 = strip C" by (rule strip_Cons_space [OF sp(1)])
  have ta_sql: "text_after ''SQL:'' ?r = ?t1" and in_sql: "str_in ''SQL:'' ?r"
    unfolding text_after_def str_in_iff_find sql by simp_all
  have tb_expl: "text_before ''EXPLANATION:'' ?t1 = (CHR '' '' # S) @ ''\<newline>''"
    unfolding text_before_def sql_end by simp
  have ta_expl: "text_after ''EXPLANATION:'' ?r = ?t2" and in_expl: "str_in ''EXPLANATION:'' ?r"
    unfolding text_after_def str_in_iff_find expl by simp_all
  have tb_conf: "text_before ''CONFIDENCE:'' ?t2 = (CHR '' '' # E) @ ''\<newline>''"
    unfolding text_before_def expl_end by simp
  have ta_conf: "text_after ''CONFIDENCE:'' ?r = ?t3" and in_conf: "str_in ''CONFIDENCE:'' ?r"
    unfolding text_after_def str_in_iff_find conf by simp_all
  show ?thesis
    unfolding parse_llm_response_eq [of ?r] ta_sql ta_expl ta_conf tb_expl tb_conf
      strip_field strip_last
    using in_sql in_expl in_conf nonempty C(1) by simp
qed

theorem parser_round_trip_witness:
  "\<not> str_in ''SQL:'' ''SELECT COUNT(*) FROM cars WHERE hp > 200;'' \<and>
   \<not> str_in ''EXPLANATION:'' ''SELECT COUNT(*) FROM cars WHERE hp > 200;'' \<and>
   \<not> str_in ''CONFIDENCE:'' ''SELECT COUNT(*) FROM cars WHERE hp > 200;'' \<and>
   \<not> str_in ''SQL:'' ''Counts rows where hp exceeds 200.'' \<and>
   \<not> str_in ''EXPLANATION:'' ''Counts rows where hp exceeds 200.'' \<and>
   \<not> str_in ''CONFIDENCE:'' ''Counts rows where hp exceeds 200.'' \<and>
   strip ''SELECT COUNT(*) FROM cars WHERE hp > 200;'' \<noteq> [] \<and>
   py_float (strip ''0.9'') = Some (Finite (8106479329266893 / 9007199254740992)) \<and>
   in_unit (Finite (8106479329266893 / 9007199254740992)) \<and>
   parse_llm_response
     (''SQL: '' @ ''SELECT COUNT(*) FROM cars WHERE hp > 200;'' @ ''\<newline>''
      @ ''EXPLANATION: '' @ ''Counts rows where hp exceeds 200.'' @ ''\<newline>''
      @ ''CONFIDENCE: '' @ ''0.9'')
     = Inr (strip ''SELECT COUNT(*) FROM cars WHERE hp > 200;'',
            Some (strip ''Counts rows where hp exceeds 200.''),
            Finite (8106479329266893 / 9007199254740992))"
proof -
  have s1: "\<not> str_in ''SQL:'' ''SELECT COUNT(*) FROM cars WHERE hp > 200;''" by simp
  have s2: "\<not> str_in ''EXPLANATION:'' ''SELECT COUNT(*) FROM cars WHERE hp > 200;''" by simp
  have s3: "\<not> str_in ''CONFIDENCE:'' ''SELECT COUNT(*) FROM cars WHERE hp > 200;''" by simp
  have e1: "\<not> str_in ''SQL:'' ''Counts rows where hp exceeds 200.''" by simp
  have e2: "\<not> str_in ''EXPLANATION:'' ''Counts rows where hp exceeds 200.''" by simp
  have e3: "\<not> str_in ''CONFIDENCE:'' ''Counts rows where hp exceeds 200.''" by simp
  have n: "strip ''SELECT COUNT(*) FROM cars WHERE hp > 200;'' \<noteq> []" by code_simp
  have c1: "py_float (strip ''0.9'') = Some (Finite (8106479329266893 / 9007199254740992))"
    by code_simp
  have c2: "in_unit (Finite (8106479329266893 / 9007199254740992))" by simp
  from s1 s2 s3 e1 e2 e3 n c1 c2 parser_round_trip [OF s1 s2 s3 e1 e2 e3 n c1 c2]
  show ?thesis by (intro conjI)
qed

text \<open>
  C1 as stated fails for an SQL text that is empty after trimming: the parser returns
  the fallback statement, not the empty text.
\<close>

theorem round_trip_empty_sql_counterexample:
  "\<not> str_in ''SQL:'' [] \<and> \<not> str_in ''EXPLANATION:'' [] \<and> \<not> str_in ''CONFIDENCE:'' [] \<and>
   \<not> str_in ''SQL:'' ''none'' \<and> \<not> str_in ''EXPLANATION:'' ''none'' \<and>
   \<not> str_in ''CONFIDENCE:'' ''none'' \<and>
   py_float (strip ''1'') = Some (Finite 1) \<and> in_unit (Finite 1) \<and>
   parse_llm_response
     (''SQL: '' @ [] @ ''\<newline>'' @ ''EXPLANATION: '' @ ''none'' @ ''\<newline>'' @ ''CONFIDENCE: '' @ ''1'')
     = Inr (''SELECT * FROM cars LIMIT 10;'', Some ''none'', Finite 1) \<and>
   parse_llm_response
     (''SQL: '' @ [] @ ''\<newline>'' @ ''EXPLANATION: '' @ ''none'' @ ''\<newline>'' @ ''CONFIDENCE: '' @ ''1'')
     \<noteq> Inr (strip [], Some (strip ''none''), Finite 1)"
proof -
  have m: "\<not> str_in ''SQL:'' []" "\<not> str_in ''EXPLANATION:'' []" "\<not> str_in ''CONFIDENCE:'' []"
    "\<not> str_in ''SQL:'' ''none''" "\<not> str_in ''EXPLANATION:'' ''none''"
    "\<not> str_in ''CONFIDENCE:'' ''none''"
    by simp_all
  have c: "py_float (strip ''1'') = Some (Finite 1)" by code_simp
  have u: "in_unit (Finite 1)" by simp
  have p: "parse_llm_response
     (''SQL: '' @ [] @ ''\<newline>'' @ ''EXPLANATION: '' @ ''none'' @ ''\<newline>'' @ ''CONFIDENCE: '' @ ''1'')
     = Inr (''SELECT * FROM cars LIMIT 10;'', Some ''none'', Finite 1)"
    by code_simp
  have s: "strip [] = []" by (simp add: strip_def lstrip_def rstrip_def)
  have q: "parse_llm_response
     (''SQL: '' @ [] @ ''\<newline>'' @ ''EXPLANATION: '' @ ''none'' @ ''\<newline>'' @ ''CONFIDENCE: '' @ ''1'')
     \<noteq> Inr (strip [], Some (strip ''none''), Finite 1)"
    unfolding p s by simp
  from m c u p q show ?thesis by (intro conjI)
qed

text \<open>
  C2, as amended: each step of \<open>parse_llm_response\<close> searches the whole response, not
  the remainder left by the step before it. For a response whose markers are in the
  fixed order the values extracted are those of the remainder-based algorithm.
\<close>

theorem ordered_response_by_remainders:
  assumes "markers_in_order r"
  shows "parse_llm_response r = Inr (parse_by_remainders r)"
proof (cases "str_in ''EXPLANATION:'' r")
  case expl: True
  from assms expl have "\<not> str_in ''CONFIDENCE:'' (text_before ''EXPLANATION:'' r)"
    by (simp add: markers_in_order_def)
  note ce = confidence_after_explanation [OF expl this]
  show ?thesis
  proof (cases "str_in ''SQL:'' r")
    case sql: True
    from assms sql have "\<not> str_in ''EXPLANATION:'' (text_before ''SQL:'' r)"
      by (simp add: markers_in_order_def)
    note es = explanation_after_sql [OF sql this]
    from expl es(1) have e': "str_in ''EXPLANATION:'' (text_after ''SQL:'' r)" by simp
    show ?thesis
      unfolding parse_llm_response_eq parse_by_remainders_def sql_step_eq
      by (simp add: sql expl e' explanation_step_eq confidence_step_eq marker_first
            es(2) [symmetric] ce)
  next
    case nosql: False
    show ?thesis
      unfolding parse_llm_response_eq parse_by_remainders_def sql_step_eq
      by (simp add: nosql expl explanation_step_eq confidence_step_eq marker_first ce)
  qed
next
  case noexpl: False
  show ?thesis
  proof (cases "str_in ''SQL:'' r")
    case sql: True
    from assms sql have "\<not> str_in ''EXPLANATION:'' (text_before ''SQL:'' r)"
      by (simp add: markers_in_order_def)
    note es = explanation_after_sql [OF sql this]
    from noexpl es(1) have e': "\<not> str_in ''EXPLANATION:'' (text_after ''SQL:'' r)" by simp
    from assms sql noexpl have c: "\<not> str_in ''CONFIDENCE:'' r"
      by (simp add: markers_in_order_def)
    show ?thesis
      unfolding parse_llm_response_eq parse_by_remainders_def sql_step_eq
      by (simp add: sql noexpl e' c explanation_step_eq confidence_step_eq)
  next
    case nosql: False
    show ?thesis
      unfolding parse_llm_response_eq parse_by_remainders_def sql_step_eq
      by (simp add: nosql noexpl explanation_step_eq confidence_step_eq)
  qed
qed

theorem ordered_response_by_remainders_witness:
  "markers_in_order ''SQL: SELECT 1;\<newline>EXPLANATION: one\<newline>CONFIDENCE: 0.5'' \<and>
   parse_llm_response ''SQL: SELECT 1;\<newline>EXPLANATION: one\<newline>CONFIDENCE: 0.5''
     = Inr (parse_by_remainders ''SQL: SELECT 1;\<newline>EXPLANATION: one\<newline>CONFIDENCE: 0.5'')"
proof -
  have h: "markers_in_order ''SQL: SELECT 1;\<newline>EXPLANATION: one\<newline>CONFIDENCE: 0.5''"
    by code_simp
  from h ordered_response_by_remainders [OF h] show ?thesis by (rule conjI)
qed

text \<open>
  C2 as stated fails: in \<open>EXPLANATION: a SQL: b\<close> the explanation extracted by the code
  holds the text before the marker \<open>SQL:\<close> and that marker itself, where the
  remainder-based algorithm finds no explanation.
\<close>

theorem out_of_order_counterexample:
  "parse_llm_response ''EXPLANATION: a SQL: b'' = Inr (''b'', Some ''a SQL: b'', Finite 0) \<and>
   parse_by_remainders ''EXPLANATION: a SQL: b'' = (''b'', None, Finite 0)"
proof
  show "parse_llm_response ''EXPLANATION: a SQL: b'' = Inr (''b'', Some ''a SQL: b'', Finite 0)"
    by code_simp
  show "parse_by_remainders ''EXPLANATION: a SQL: b'' = (''b'', None, Finite 0)"
    by code_simp
qed

section \<open>Claims about the prompt builder\<close>

text \<open>
  C9: with an absent or an empty schema, the prompt built for any question holds the
  literal text \<open>No schema available.\<close> where the table listing goes, and holds the
  question text.
\<close>

theorem empty_schema_prompt:
  "format_schema_for_prompt None = ''No schema available.'' \<and>
   format_schema_for_prompt (Some []) = ''No schema available.'' \<and>
   generate_prompt q None
     = prompt_head @ ''No schema available.'' @ prompt_middle @ q @ prompt_tail \<and>
   generate_prompt q (Some [])
     = prompt_head @ ''No schema available.'' @ prompt_middle @ q @ prompt_tail \<and>
   str_in ''No schema available.'' (generate_prompt q None) \<and>
   str_in ''No schema available.'' (generate_prompt q (Some [])) \<and>
   str_in q (generate_prompt q None) \<and>
   str_in q (generate_prompt q (Some []))"
proof -
  have f: "format_schema_for_prompt None = ''No schema available.''"
    "format_schema_for_prompt (Some []) = ''No schema available.''"
    by (simp_all add: format_schema_for_prompt_def)
  have g: "generate_prompt q None
      = prompt_head @ ''No schema available.'' @ prompt_middle @ q @ prompt_tail"
    "generate_prompt q (Some [])
      = prompt_head @ ''No schema available.'' @ prompt_middle @ q @ prompt_tail"
    by (simp_all only: generate_prompt_def f Let_def)
  have s1: "str_in ''No schema available.''
      (prompt_head @ ''No schema available.'' @ prompt_middle @ q @ prompt_tail)"
    using str_in_self_append [of "''No schema available.''" prompt_head "prompt_middle @ q @ prompt_tail"]
    by (simp only: append_assoc)
  have s2: "str_in q
      (prompt_head @ ''No schema available.'' @ prompt_middle @ q @ prompt_tail)"
    using str_in_self_append [of q "prompt_head @ ''No schema available.'' @ prompt_middle" prompt_tail]
    by (simp only: append_assoc)
  from f g s1 s2 show ?thesis by (simp only: simp_thms)
qed

section \<open>Claims about the schema provider\<close>

lemma get_database_schema_cases:
  "get_database_schema env =
     (if sp_database_url env = None \<or> sp_database_url env = Some []
      then (Inr get_hardcoded_schema, [])
      else (case fst (fetch_schema env (the (sp_database_url env))) of
              Inr schema \<Rightarrow> Inr schema | Inl e \<Rightarrow> Inr get_hardcoded_schema,
            snd (fetch_schema env (the (sp_database_url env)))))"
  by (simp add: get_database_schema_def Let_def split: prod.splits sum.splits)

lemma fetch_schema_raises:
  "sp_connect env url \<noteq> None \<or> sp_cursor env \<noteq> None \<or>
   (\<exists>e. sp_fetch env tables_query = Inl e) \<or> sp_close env \<noteq> None \<Longrightarrow>
   \<exists>e. fst (fetch_schema env url) = Inl e"
  by (auto simp: fetch_schema_def and_then_def split: option.splits sum.splits)

text \<open>
  C8: \<open>get_database_schema\<close> never raises. Without a connection string, and whenever
  the \<open>try\<close> block raises (the connection, the cursor, the catalog query or the close
  call failing), it returns the hardcoded schema: the single table \<open>cars\<close> with its 13
  columns.
\<close>

theorem schema_fetch_falls_back:
  "(\<exists>schema. fst (get_database_schema env) = Inr schema) \<and>
   (sp_database_url env = None \<or> sp_database_url env = Some []
      \<longrightarrow> fst (get_database_schema env) = Inr get_hardcoded_schema) \<and>
   ((\<exists>e. fst (fetch_schema env (the (sp_database_url env))) = Inl e)
      \<longrightarrow> fst (get_database_schema env) = Inr get_hardcoded_schema) \<and>
   (sp_connect env (the (sp_database_url env)) \<noteq> None \<or> sp_cursor env \<noteq> None \<or>
    (\<exists>e. sp_fetch env tables_query = Inl e) \<or> sp_close env \<noteq> None
      \<longrightarrow> fst (get_database_schema env) = Inr get_hardcoded_schema) \<and>
   map fst get_hardcoded_schema = [''cars''] \<and>
   map (\<lambda>(t, info). map_option (map col_name) (columns info)) get_hardcoded_schema
     = [Some [''id'', ''model'', ''mpg'', ''cyl'', ''disp'', ''hp'', ''drat'', ''wt'', ''qsec'',
              ''vs'', ''am'', ''gear'', ''carb'']] \<and>
   map (\<lambda>(t, info). map_option length (columns info)) get_hardcoded_schema = [Some 13]"
proof (intro conjI impI)
  show "\<exists>schema. fst (get_database_schema env) = Inr schema"
    by (simp add: get_database_schema_cases split: sum.splits)
  show "fst (get_database_schema env) = Inr get_hardcoded_schema"
    if "sp_database_url env = None \<or> sp_database_url env = Some []"
    using that by (auto simp: get_database_schema_cases)
  show raised: "fst (get_database_schema env) = Inr get_hardcoded_schema"
    if "\<exists>e. fst (fetch_schema env (the (sp_database_url env))) = Inl e"
    using that by (auto simp: get_database_schema_cases)
  show "fst (get_database_schema env) = Inr get_hardcoded_schema"
    if "sp_connect env (the (sp_database_url env)) \<noteq> None \<or> sp_cursor env \<noteq> None \<or>
        (\<exists>e. sp_fetch env tables_query = Inl e) \<or> sp_close env \<noteq> None"
    using fetch_schema_raises [OF that] by (auto simp: get_database_schema_cases)
  show "map fst get_hardcoded_schema = [''cars'']"
    by (simp add: get_hardcoded_schema_def)
  show "map (\<lambda>(t, info). map_option (map col_name) (columns info)) get_hardcoded_schema
     = [Some [''id'', ''model'', ''mpg'', ''cyl'', ''disp'', ''hp'', ''drat'', ''wt'', ''qsec'',
              ''vs'', ''am'', ''gear'', ''carb'']]"
    by (simp add: get_hardcoded_schema_def)
  show "map (\<lambda>(t, info). map_option length (columns info)) get_hardcoded_schema = [Some 13]"
    by (simp add: get_hardcoded_schema_def)
qed

theorem schema_fetch_falls_back_witness:
  "sp_connect unreachable_db (the (sp_database_url unreachable_db)) \<noteq> None \<and>
   (\<exists>e. fst (fetch_schema unreachable_db (the (sp_database_url unreachable_db))) = Inl e) \<and>
   fst (get_database_schema unreachable_db) = Inr get_hardcoded_schema"
proof -
  have h1: "sp_connect unreachable_db (the (sp_database_url unreachable_db)) \<noteq> None"
    by (simp add: unreachable_db_def)
  have h2: "\<exists>e. fst (fetch_schema unreachable_db (the (sp_database_url unreachable_db))) = Inl e"
    by (simp add: unreachable_db_def fetch_schema_def)
  from schema_fetch_falls_back [of unreachable_db] h1
  have "fst (get_database_schema unreachable_db) = Inr get_hardcoded_schema" by blast
  with h1 h2 show ?thesis by blast
qed

text \<open>
  C5 fails on the code: when the first catalog query raises after the connection was
  opened, the call returns the hardcoded schema and the connection was never closed
  (\<open>conn.close()\<close> is the last statement of the \<open>try\<close> block, and the handler does not
  close).
\<close>

theorem schema_fetch_leaks_connection:
  "get_database_schema failing_catalog_db = (Inr get_hardcoded_schema, [Connected])"
  by (simp add: get_database_schema_def failing_catalog_db_def fetch_schema_def and_then_def)

section \<open>Claims about the query runner\<close>

text \<open>The endpoint never answers 400, whatever the database does.\<close>

lemma execute_query_status: "http_status (execute_query env request) \<in> {200, 500}"
  by (simp add: execute_query_def Let_def split: sum.splits option.splits)

text \<open>
  C3 fails on the code: for a malformed statement the inner handler raises an
  HTTPException with status 400, the outer \<open>except Exception\<close> catches it, and the
  endpoint answers 500.
\<close>

theorem malformed_sql_answers_500:
  "run_statement working_db \<lparr>query = ''SELEC 1'', params = None\<rparr>
     = Inl (HTTPException 400 ''Query execution error: syntax error at or near SELEC'') \<and>
   execute_query working_db \<lparr>query = ''SELEC 1'', params = None\<rparr>
     = Inl (HTTPException 500
         ''Error: 400: Query execution error: syntax error at or near SELEC'') \<and>
   http_status (execute_query working_db \<lparr>query = ''SELEC 1'', params = None\<rparr>) = 500"
proof -
  have s: "str_nat 400 = ''400''" by code_simp
  show ?thesis
    by (simp add: execute_query_def run_statement_def working_db_def and_then_def s)
qed

end
